theory Spec2Isabelle
  imports Main "HOL-Library.AList"
begin

section \<open>Python values, dictionaries and exceptions\<close>

text \<open>
  The exceptions the modelled code can raise. The first three are the classes declared at
  the top of \<^verbatim>\<open>api/admin.py\<close>; the others are the Python and framework exceptions that
  the modelled paths reach (\<^verbatim>\<open>getattr\<close> on a missing attribute, subscripting a dict with
  a missing key, and the framework's denial, not-found and validation errors).
\<close>

datatype error =
    AlreadyRegistered string
  | NotRegistered string
  | ImproperlyConfigured string
  | AttributeError string
  | KeyError string
  | PermissionDenied
  | Http404
  | ValidationError "string list"

text \<open>Plain data as it travels in payloads, field snapshots and audit messages.\<close>

datatype pyval =
    PyNone
  | PyBool bool
  | PyInt int
  | PyStr string
  | PyList "pyval list"
  | PyDict "(string \<times> pyval) list"

text \<open>
  A Python \<^verbatim>\<open>dict\<close> keeps its keys in insertion order and holds each key once: it is an
  association list with distinct keys. \<^verbatim>\<open>d[k] = v\<close> is \<^const>\<open>AList.update\<close> (replace in
  place, or append), \<^verbatim>\<open>d.update(other)\<close> stores the items of \<^verbatim>\<open>other\<close> one after the
  other, \<^verbatim>\<open>dict(pairs)\<close> does the same into an empty dict, \<^verbatim>\<open>k in d\<close> and \<^verbatim>\<open>d[k]\<close>
  are \<^const>\<open>map_of\<close>.
\<close>

type_synonym ('k, 'v) dict = "('k \<times> 'v) list"

definition dict_update :: "('k, 'v) dict \<Rightarrow> ('k, 'v) dict \<Rightarrow> ('k, 'v) dict" where
  "dict_update d other = fold (\<lambda>(k, v). AList.update k v) other d"

definition dict_of_pairs :: "('k \<times> 'v) list \<Rightarrow> ('k, 'v) dict" where
  "dict_of_pairs pairs = dict_update [] pairs"

definition dict_keys :: "('k, 'v) dict \<Rightarrow> 'k list" where
  "dict_keys d = map fst d"

definition getitem :: "(string, 'v) dict \<Rightarrow> string \<Rightarrow> error + 'v" where
  "getitem d k = (case map_of d k of None \<Rightarrow> Inl (KeyError k) | Some v \<Rightarrow> Inr v)"

section \<open>Models, callers and requests\<close>

text \<open>The part of a model's \<^verbatim>\<open>_meta\<close> that the code reads.\<close>

record options =
  app_label :: string
  model_name :: string
  verbose_name :: string
  verbose_name_plural :: string
  abstract :: bool

text \<open>A model class: its \<^verbatim>\<open>__name__\<close> and its \<^verbatim>\<open>_meta\<close>.\<close>

record model =
  name :: string
  meta :: options

text \<open>A record of a model: its primary key and its field values.\<close>

record model_instance =
  pk :: nat
  field_values :: "(string, pyval) dict"

text \<open>
  The caller. \<^verbatim>\<open>has_perm\<close> is the identity layer's capability; its argument is a
  permission code, or \<^verbatim>\<open>None\<close> (what an operation annotated without a permission hands
  over).
\<close>

record user =
  user_pk :: nat
  has_perm :: "string option \<Rightarrow> bool"

text \<open>The request: \<^verbatim>\<open>request.method\<close>, \<^verbatim>\<open>request.user\<close> and \<^verbatim>\<open>request.data\<close>.\<close>

record request =
  http_method :: string
  user :: user
  data :: "(string, pyval) dict"

section \<open>Permission resolution: \<^verbatim>\<open>AuthPermissionViewSetMixin\<close>\<close>

text \<open>
  A value of a permission map: a callable, a boolean, a permission code, or \<^verbatim>\<open>None\<close>.
  The callable is invoked as \<^verbatim>\<open>perm_code(self, action, request, obj)\<close>; the handler it
  receives first is the one it is stored in, so the model keeps the other three arguments.
\<close>

datatype perm =
    PermCallable "string \<Rightarrow> request \<Rightarrow> model_instance option \<Rightarrow> bool"
  | PermBool bool
  | PermCode string
  | PermNone

text \<open>
  The classes of \<^verbatim>\<open>permission_classes\<close>: the one of this repository, or another one, given
  by its \<^verbatim>\<open>has_permission\<close> and \<^verbatim>\<open>has_object_permission\<close>.

  The handler. \<^verbatim>\<open>attributes\<close> lists the names \<^verbatim>\<open>getattr(self, name)\<close> finds, each with
  the \<^verbatim>\<open>permission\<close> attribute of the value found, if it has one (the \<^verbatim>\<open>action\<close>
  decorator at the end of the file sets it, to \<^verbatim>\<open>None\<close> when no permission is given).
  \<^verbatim>\<open>action\<close> is the name of the operation the request was routed to, unset when
  the request's method has no operation. The last four fields are the collaborators of the CRUD
  operations: \<^verbatim>\<open>validate\<close> and \<^verbatim>\<open>serialize\<close> are the schema layer (the error messages of
  a payload or its validated fields; the representation of a record), \<^verbatim>\<open>str_of\<close> is the
  model's \<^verbatim>\<open>__str__\<close> and \<^verbatim>\<open>content_type_pk\<close> is \<^verbatim>\<open>get_content_type_for_model(obj).pk\<close>
  for the records of the handler's model.
\<close>

datatype permission_class =
    HasPermissionAccess
  | OtherPermission "request \<Rightarrow> bool" "request \<Rightarrow> model_instance \<Rightarrow> bool"

record view =
  model_options :: options
  NOT_FOUND_PERMISSION_DEFAULT :: bool
  permission_map :: "(string, perm) dict"
  attributes :: "(string, perm option) dict"
  action :: "string option"
  permission_classes :: "permission_class list"
  validate :: "(string, pyval) dict \<Rightarrow> string list + (string, pyval) dict"
  serialize :: "model_instance \<Rightarrow> pyval"
  str_of :: "model_instance \<Rightarrow> string"
  content_type_pk :: nat

text \<open>
  Modelled from the spec: \<^verbatim>\<open>get_permission_codename\<close> belongs to the identity layer and is
  not in the repository. A permission code is a namespace and a codename; the codename of
  an action on a model is \<^verbatim>\<open>"%s_%s" % (action, opts.model_name)\<close>.
\<close>

definition get_permission_codename :: "string \<Rightarrow> options \<Rightarrow> string" where
  "get_permission_codename act opts = act @ ''_'' @ model_name opts"

text \<open>\<^verbatim>\<open>_make_permission_key\<close>.\<close>

definition make_permission_key :: "view \<Rightarrow> string \<Rightarrow> string" where
  "make_permission_key self act =
     app_label (model_options self) @ ''.'' @ get_permission_codename act (model_options self)"

text \<open>
  \<^verbatim>\<open>get_permission_map\<close>, written twice in the source with the same body (in the mixin
  and in \<^verbatim>\<open>RestFulAdminMVS\<close>).
\<close>

definition get_permission_map :: "view \<Rightarrow> (string, perm) dict" where
  "get_permission_map self =
     dict_update
       [(''list'', PermCode (make_permission_key self ''view'')),
        (''retrieve'', PermCode (make_permission_key self ''view'')),
        (''create'', PermCode (make_permission_key self ''add'')),
        (''update'', PermCode (make_permission_key self ''change'')),
        (''partial_update'', PermCode (make_permission_key self ''change'')),
        (''delete'', PermCode (make_permission_key self ''delete''))]
       (permission_map self)"

text \<open>\<^verbatim>\<open>getattr(self, name)\<close>, seen through the \<^verbatim>\<open>permission\<close> attribute of what it finds.\<close>

definition getattr :: "view \<Rightarrow> string \<Rightarrow> error + perm option" where
  "getattr self nm =
     (case map_of (attributes self) nm of
        None \<Rightarrow> Inl (AttributeError nm)
      | Some a \<Rightarrow> Inr a)"

text \<open>
  The effective permission map of an action: the two statements of \<^verbatim>\<open>_has_perm_action\<close>
  that build \<^verbatim>\<open>perm_map\<close> (the handler's map, then the operation's annotation).
\<close>

definition effective_permission_map :: "view \<Rightarrow> string \<Rightarrow> error + (string, perm) dict" where
  "effective_permission_map self act =
     (case getattr self act of
        Inl e \<Rightarrow> Inl e
      | Inr None \<Rightarrow> Inr (get_permission_map self)
      | Inr (Some p) \<Rightarrow> Inr (AList.update act p (get_permission_map self)))"

text \<open>
  \<^verbatim>\<open>_has_perm_action\<close>. The action is a string or \<^verbatim>\<open>None\<close>, so \<^verbatim>\<open>not action\<close> holds
  for \<^verbatim>\<open>None\<close> and for the empty string.
\<close>

definition has_perm_action ::
  "view \<Rightarrow> string option \<Rightarrow> request \<Rightarrow> model_instance option \<Rightarrow> error + bool" where
  "has_perm_action self act request obj =
     (if http_method request = ''OPTIONS'' \<or> act = Some ''metadata'' then Inr True
      else
        (case act of
           None \<Rightarrow> Inr False
         | Some a \<Rightarrow>
             if a = [] then Inr False
             else
               (case effective_permission_map self a of
                  Inl e \<Rightarrow> Inl e
                | Inr perm_map \<Rightarrow>
                    (case map_of perm_map a of
                       None \<Rightarrow> Inr (NOT_FOUND_PERMISSION_DEFAULT self)
                     | Some (PermCallable f) \<Rightarrow> Inr (f a request obj)
                     | Some (PermBool b) \<Rightarrow> Inr b
                     | Some (PermCode c) \<Rightarrow> Inr (has_perm (user request) (Some c))
                     | Some PermNone \<Rightarrow> Inr (has_perm (user request) None)))))"

text \<open>
  \<^verbatim>\<open>HasPermissionAccess\<close>: both checks hand the routed action to the resolver. The
  assertion of \<^verbatim>\<open>has_permission\<close>, that the handler has a \<^verbatim>\<open>get_permission_map\<close>, holds
  for every value of \<^typ>\<open>view\<close>.
\<close>

definition has_permission :: "request \<Rightarrow> view \<Rightarrow> error + bool" where
  "has_permission request v = has_perm_action v (action v) request None"

definition has_object_permission :: "request \<Rightarrow> view \<Rightarrow> model_instance \<Rightarrow> error + bool" where
  "has_object_permission request v obj = has_perm_action v (action v) request (Some obj)"

section \<open>Field diffs: \<^verbatim>\<open>ModelDiffHelper\<close>\<close>

text \<open>
  The helper keeps two snapshots, \<^verbatim>\<open>__initial\<close> and \<^verbatim>\<open>_new_object\<close> (\<^verbatim>\<open>None\<close> until the
  first \<^verbatim>\<open>set_changed_model\<close>). \<^verbatim>\<open>_dict\<close> is the framework's \<^verbatim>\<open>model_to_dict\<close>; the model
  takes it as the parameter \<^verbatim>\<open>to_dict\<close>.
\<close>

record 'v ModelDiffHelper =
  initial :: "(string, 'v) dict"
  new_object :: "(string, 'v) dict option"

definition ModelDiffHelper_init ::
  "('m \<Rightarrow> (string, 'v) dict) \<Rightarrow> 'm \<Rightarrow> 'v ModelDiffHelper" where
  "ModelDiffHelper_init to_dict init_model = \<lparr>initial = to_dict init_model, new_object = None\<rparr>"

definition set_changed_model ::
  "('m \<Rightarrow> (string, 'v) dict) \<Rightarrow> 'm \<Rightarrow> 'v ModelDiffHelper \<Rightarrow> 'v ModelDiffHelper" where
  "set_changed_model to_dict new_model self =
     (let d = to_dict new_model;
          self1 = (if new_object self \<noteq> None then self\<lparr>initial := d\<rparr> else self)
      in self1\<lparr>new_object := Some d\<rparr>)"

text \<open>
  The comprehension of \<^verbatim>\<open>diff\<close>: the items of \<^verbatim>\<open>d1\<close> in order, each compared with
  \<^verbatim>\<open>d2[k]\<close>, which raises \<^verbatim>\<open>KeyError\<close> at the first key that \<^verbatim>\<open>d2\<close> lacks.
\<close>

fun diff_items :: "(string, 'v) dict \<Rightarrow> (string, 'v) dict \<Rightarrow> error + (string \<times> 'v \<times> 'v) list" where
  "diff_items [] d2 = Inr []"
| "diff_items ((k, v) # rest) d2 =
     (case getitem d2 k of
        Inl e \<Rightarrow> Inl e
      | Inr v2 \<Rightarrow>
          (case diff_items rest d2 of
             Inl e \<Rightarrow> Inl e
           | Inr diffs \<Rightarrow> Inr (if v \<noteq> v2 then (k, (v, v2)) # diffs else diffs)))"

text \<open>The property \<^verbatim>\<open>diff\<close>; \<^verbatim>\<open>not self._new_object\<close> holds for \<^verbatim>\<open>None\<close> and for an empty dict.\<close>

definition diff :: "'v ModelDiffHelper \<Rightarrow> error + (string, 'v \<times> 'v) dict" where
  "diff self =
     (case new_object self of
        None \<Rightarrow> Inr []
      | Some d2 \<Rightarrow>
          if d2 = [] then Inr []
          else
            (case diff_items (initial self) d2 of
               Inl e \<Rightarrow> Inl e
             | Inr diffs \<Rightarrow> Inr (dict_of_pairs diffs)))"

definition has_changed :: "'v ModelDiffHelper \<Rightarrow> error + bool" where
  "has_changed self = (case diff self of Inl e \<Rightarrow> Inl e | Inr d \<Rightarrow> Inr (d \<noteq> []))"

definition changed_fields :: "'v ModelDiffHelper \<Rightarrow> error + string list" where
  "changed_fields self = (case diff self of Inl e \<Rightarrow> Inl e | Inr d \<Rightarrow> Inr (dict_keys d))"

definition get_field_diff :: "'v ModelDiffHelper \<Rightarrow> string \<Rightarrow> error + ('v \<times> 'v) option" where
  "get_field_diff self field_name =
     (case diff self of Inl e \<Rightarrow> Inl e | Inr d \<Rightarrow> Inr (map_of d field_name))"

section \<open>The persistence layer and the audit log\<close>

text \<open>
  The store the operations act on: the rows of the handler's model, the key the next
  inserted row gets, and the audit log. Every write to the store is also appended to
  \<^verbatim>\<open>effects\<close>, in the order in which the writes happen.
\<close>

datatype action_flag = ADDITION | CHANGE | DELETION

record log_entry =
  user_id :: nat
  content_type_id :: nat
  object_id :: nat
  object_repr :: pyval
  action_flag :: action_flag
  change_message :: pyval

datatype effect =
    Saved model_instance
  | Logged log_entry
  | Deleted nat

record world =
  rows :: "model_instance list"
  next_pk :: nat
  log_entries :: "log_entry list"
  effects :: "effect list"

text \<open>
  Modelled from the spec: \<^verbatim>\<open>LogEntry.objects.log_action\<close> belongs to the audit log store
  and is not in the repository. It is an append-only write of actor, target type, target
  id, display string, action kind and message.
\<close>

definition log_action ::
  "nat \<Rightarrow> nat \<Rightarrow> nat \<Rightarrow> pyval \<Rightarrow> action_flag \<Rightarrow> pyval \<Rightarrow> world \<Rightarrow> world" where
  "log_action uid ctid oid orepr flag msg w =
     (let e = \<lparr>user_id = uid, content_type_id = ctid, object_id = oid, object_repr = orepr,
                action_flag = flag, change_message = msg\<rparr>
      in w\<lparr>log_entries := log_entries w @ [e], effects := effects w @ [Logged e]\<rparr>)"

text \<open>
  Modelled from the spec: \<^verbatim>\<open>perform_create\<close> (\<^verbatim>\<open>serializer.save()\<close>) belongs to the
  framework and the persistence layer and is not in the repository. It persists a new
  record, which gets the next key.
\<close>

definition perform_create :: "(string, pyval) dict \<Rightarrow> world \<Rightarrow> model_instance \<times> world" where
  "perform_create validated w =
     (let obj = \<lparr>pk = next_pk w, field_values = validated\<rparr>
      in (obj, w\<lparr>rows := rows w @ [obj], next_pk := Suc (next_pk w),
                  effects := effects w @ [Saved obj]\<rparr>))"

text \<open>
  Modelled from the spec: \<^verbatim>\<open>perform_destroy\<close> (\<^verbatim>\<open>instance.delete()\<close>) belongs to the
  framework and the persistence layer and is not in the repository. It deletes the record:
  no row with its key is left.
\<close>

definition perform_destroy :: "model_instance \<Rightarrow> world \<Rightarrow> world" where
  "perform_destroy obj w =
     w\<lparr>rows := filter (\<lambda>r. pk r \<noteq> pk obj) (rows w), effects := effects w @ [Deleted (pk obj)]\<rparr>"

section \<open>The framework's request handling\<close>

text \<open>
  The CRUD operations run inside the web framework's view machinery, which is not part of
  the repository. The definitions of this section are its contract as the operations use
  it, in the order the request goes through: authorize, execute, respond.
\<close>

datatype response = Response (status: nat) (body: pyval)

text \<open>
  What one permission class answers for the handler as a whole and for one record. The
  repository's class is \<^verbatim>\<open>HasPermissionAccess\<close> above; any other class is given by its two
  answers.
\<close>

fun class_has_permission :: "permission_class \<Rightarrow> request \<Rightarrow> view \<Rightarrow> error + bool" where
  "class_has_permission HasPermissionAccess request v = has_permission request v"
| "class_has_permission (OtherPermission p po) request v = Inr (p request)"

fun class_has_object_permission ::
  "permission_class \<Rightarrow> request \<Rightarrow> view \<Rightarrow> model_instance \<Rightarrow> error + bool" where
  "class_has_object_permission HasPermissionAccess request v obj =
     has_object_permission request v obj"
| "class_has_object_permission (OtherPermission p po) request v obj = Inr (po request obj)"

text \<open>
  Modelled from the spec: \<^verbatim>\<open>check_permissions\<close> and \<^verbatim>\<open>check_object_permissions\<close> belong to
  the framework and are not in the repository. Authorization is evaluated against the
  collection-level permission, and against the object-level permission with the fetched
  record; the first class that refuses makes the request fail with \<^verbatim>\<open>PermissionDenied\<close>.
\<close>

fun check_permissions :: "permission_class list \<Rightarrow> request \<Rightarrow> view \<Rightarrow> error + unit" where
  "check_permissions [] request v = Inr ()"
| "check_permissions (c # cs) request v =
     (case class_has_permission c request v of
        Inl e \<Rightarrow> Inl e
      | Inr granted \<Rightarrow>
          if granted then check_permissions cs request v else Inl PermissionDenied)"

fun check_object_permissions ::
  "permission_class list \<Rightarrow> request \<Rightarrow> view \<Rightarrow> model_instance \<Rightarrow> error + unit" where
  "check_object_permissions [] request v obj = Inr ()"
| "check_object_permissions (c # cs) request v obj =
     (case class_has_object_permission c request v obj of
        Inl e \<Rightarrow> Inl e
      | Inr granted \<Rightarrow>
          if granted then check_object_permissions cs request v obj else Inl PermissionDenied)"

text \<open>
  Modelled from the spec: \<^verbatim>\<open>get_object\<close> belongs to the framework and is not in the
  repository. It fetches the record by primary key, fails with \<^verbatim>\<open>Http404\<close> when there is
  none, and evaluates the object-level permission on the record it found.
\<close>

definition get_object :: "view \<Rightarrow> request \<Rightarrow> nat \<Rightarrow> world \<Rightarrow> error + model_instance" where
  "get_object self request key w =
     (case find (\<lambda>r. pk r = key) (rows w) of
        None \<Rightarrow> Inl Http404
      | Some obj \<Rightarrow>
          (case check_object_permissions (permission_classes self) request self obj of
             Inl e \<Rightarrow> Inl e
           | Inr _ \<Rightarrow> Inr obj))"

text \<open>
  Modelled from the spec: the framework's exception handler is not in the repository. An
  authorization failure becomes a forbidden response without detail, a missing record a
  not-found response, a validation failure a client error with the messages of the schema
  layer; every other fault propagates.
\<close>

definition handle_exception :: "error \<Rightarrow> error + response" where
  "handle_exception e =
     (case e of
        PermissionDenied \<Rightarrow> Inr (Response 403 PyNone)
      | Http404 \<Rightarrow> Inr (Response 404 PyNone)
      | ValidationError msgs \<Rightarrow> Inr (Response 400 (PyList (map PyStr msgs)))
      | _ \<Rightarrow> Inl e)"

text \<open>
  Modelled from the spec: the framework's \<^verbatim>\<open>dispatch\<close> is not in the repository. The
  collection-level authorization comes first and a failure short-circuits to the denial
  response; otherwise the operation runs, and what it raises goes through the exception
  handler, with the store as the operation left it.
\<close>

definition dispatch ::
  "view \<Rightarrow> request \<Rightarrow> (world \<Rightarrow> (error + response) \<times> world) \<Rightarrow> world
     \<Rightarrow> (error + response) \<times> world" where
  "dispatch self request handler w =
     (case check_permissions (permission_classes self) request self of
        Inl e \<Rightarrow> (handle_exception e, w)
      | Inr _ \<Rightarrow>
          (case handler w of
             (Inl e, w') \<Rightarrow> (handle_exception e, w')
           | (Inr resp, w') \<Rightarrow> (Inr resp, w')))"

section \<open>The CRUD handler: \<^verbatim>\<open>RestFulAdminMVS\<close>\<close>

definition log_addition :: "view \<Rightarrow> request \<Rightarrow> model_instance \<Rightarrow> pyval \<Rightarrow> world \<Rightarrow> world" where
  "log_addition self request obj message w =
     log_action (user_pk (user request)) (content_type_pk self) (pk obj)
       (PyStr (str_of self obj)) ADDITION message w"

text \<open>
  \<^verbatim>\<open>log_deletion\<close> passes no \<^verbatim>\<open>change_message\<close>; \<^verbatim>\<open>log_action\<close> then takes its default, the
  empty string.
\<close>

definition log_deletion :: "view \<Rightarrow> request \<Rightarrow> model_instance \<Rightarrow> pyval \<Rightarrow> world \<Rightarrow> world" where
  "log_deletion self request obj orepr w =
     log_action (user_pk (user request)) (content_type_pk self) (pk obj)
       orepr DELETION (PyStr []) w"

text \<open>\<^verbatim>\<open>create\<close>; the response headers are left out of the model.\<close>

definition create :: "view \<Rightarrow> request \<Rightarrow> world \<Rightarrow> (error + response) \<times> world" where
  "create self request w =
     (case validate self (data request) of
        Inl msgs \<Rightarrow> (Inl (ValidationError msgs), w)
      | Inr validated \<Rightarrow>
          (let (obj, w1) = perform_create validated w;
               w2 = log_addition self request obj
                      (PyList [PyDict [(''added'',
                         PyDict [(''name'', PyStr (verbose_name (model_options self))),
                                 (''object'', PyStr (str_of self obj))])]]) w1
           in (Inr (Response 201 (serialize self obj)), w2)))"

text \<open>\<^verbatim>\<open>destroy\<close>.\<close>

definition destroy :: "view \<Rightarrow> request \<Rightarrow> nat \<Rightarrow> world \<Rightarrow> (error + response) \<times> world" where
  "destroy self request key w =
     (case get_object self request key w of
        Inl e \<Rightarrow> (Inl e, w)
      | Inr obj \<Rightarrow>
          (let w1 = log_deletion self request obj
                      (PyList [PyDict [(''deleted'',
                         PyDict [(''name'', PyStr (verbose_name (model_options self))),
                                 (''object'', PyStr (str_of self obj))])]]) w;
               w2 = perform_destroy obj w1
           in (Inr (Response 204 PyNone), w2)))"

section \<open>The registry: \<^verbatim>\<open>RestFulAdminSite\<close>\<close>

text \<open>
  The value of a registration option: the documentation string that \<^verbatim>\<open>register\<close> stores
  under \<^verbatim>\<open>__doc__\<close>, or whatever the caller passed.

  A handler class: \<^verbatim>\<open>RestFulAdminMVS\<close>, a class the caller wrote, or a class made by
  \<^verbatim>\<open>type(name, (base,), namespace)\<close>, which copies the namespace it is given.
\<close>

datatype 'a option_value = DocString string | OptionValue 'a

datatype 'a view_class =
    RestFulAdminMVS
  | UserViewClass string
  | SynthesizedClass string "'a view_class" "(string, 'a option_value) dict"

record 'a RestFulAdminSite =
  registry :: "(model, 'a view_class) dict"
  url_patterns :: "string list"
  default_view_class :: "'a view_class"

definition RestFulAdminSite_init :: "'a view_class \<Rightarrow> 'a RestFulAdminSite" where
  "RestFulAdminSite_init vc = \<lparr>registry = [], url_patterns = [], default_view_class = vc\<rparr>"

text \<open>The module's \<^verbatim>\<open>site\<close> is \<^term>\<open>RestFulAdminSite_init RestFulAdminMVS\<close>.\<close>

text \<open>\<^verbatim>\<open>generate_docs\<close>: the template with the three names filled in.\<close>

definition generate_docs :: "model \<Rightarrow> string" where
  "generate_docs m =
     (let mn = model_name (meta m);
          vn = verbose_name (meta m);
          vnp = verbose_name_plural (meta m)
      in ''\<newline>List all '' @ vnp @ '', create new '' @ vn @ ''\<newline>''
       @ ''> `[GET]` `'' @ mn @ ''/`<br/>\<newline>''
       @ ''> `[POST]` `'' @ mn @ ''/`\<newline>''
       @ ''\<newline>''
       @ ''Operate on specific '' @ vn @ '' selected by `<pk>` field value:\<newline>''
       @ ''> `[GET]` `'' @ mn @ ''/<pk>/` => Get '' @ vn @ ''<br/>\<newline>''
       @ ''> `[PATCH | PUT]` `'' @ mn @ ''/<pk>/` => Update '' @ vn @ ''<br/>\<newline>''
       @ ''> `[DELETE]` `'' @ mn @ ''/<pk>/` => Delete '' @ vn @ ''\<newline>''
       @ ''\<newline>''
       @ ''List '' @ vn @ '' fields for form creation, view supported operations for ''
       @ vnp @ ''\<newline>''
       @ ''> `[OPTIONS]` `'' @ mn @ ''/`<br/>\<newline>''
       @ ''> `[OPTIONS]` `'' @ mn @ ''/<pk>/`\<newline>''
       @ ''            '')"

text \<open>
  The first argument of \<^verbatim>\<open>register\<close> and \<^verbatim>\<open>unregister\<close>: a model class, which is wrapped
  into a list of one, or an iterable of model classes.
\<close>

datatype model_or_iterable = Model model | Iterable "model list"

fun models_of :: "model_or_iterable \<Rightarrow> model list" where
  "models_of (Model m) = [m]"
| "models_of (Iterable ms) = ms"

text \<open>
  The loop of \<^verbatim>\<open>register\<close>. Its three variables are the handler class \<^verbatim>\<open>view_class\<close>, the
  \<^verbatim>\<open>options\<close> dict and the registry; an exception leaves the registry as the earlier
  iterations made it.
\<close>

fun register_loop ::
  "model list \<Rightarrow> 'a view_class \<Rightarrow> (string, 'a option_value) dict \<Rightarrow> (model, 'a view_class) dict
     \<Rightarrow> (error + unit) \<times> (model, 'a view_class) dict" where
  "register_loop [] vc opts reg = (Inr (), reg)"
| "register_loop (m # ms) vc opts reg =
     (if abstract (meta m) then
        (Inl (ImproperlyConfigured
           (''The model '' @ name m @ '' is abstract, so it cannot be registered with admin.'')),
         reg)
      else if map_of reg m \<noteq> None then
        (Inl (AlreadyRegistered (''The model '' @ name m @ '' is already registered'')), reg)
      else
        (let opts1 = AList.update ''__doc__'' (DocString (generate_docs m)) opts;
             vc1 = SynthesizedClass (name m @ ''Admin'') vc opts1
         in register_loop ms vc1 opts1 (AList.update m vc1 reg)))"

definition register ::
  "model_or_iterable \<Rightarrow> 'a view_class option \<Rightarrow> (string, 'a option_value) dict
     \<Rightarrow> 'a RestFulAdminSite \<Rightarrow> (error + unit) \<times> 'a RestFulAdminSite" where
  "register model_or_iter view_cls opts self =
     (let vc = (case view_cls of None \<Rightarrow> default_view_class self | Some c \<Rightarrow> c);
          (res, reg) = register_loop (models_of model_or_iter) vc opts (registry self)
      in (res, self\<lparr>registry := reg\<rparr>))"

text \<open>\<^verbatim>\<open>register_decorator\<close>: the models arrive as a tuple.\<close>

definition register_decorator ::
  "model list \<Rightarrow> (string, 'a option_value) dict \<Rightarrow> 'a view_class
     \<Rightarrow> 'a RestFulAdminSite \<Rightarrow> (error + unit) \<times> 'a RestFulAdminSite" where
  "register_decorator ms opts view_cls self = register (Iterable ms) (Some view_cls) opts self"

fun unregister_loop ::
  "model list \<Rightarrow> (model, 'a view_class) dict \<Rightarrow> (error + unit) \<times> (model, 'a view_class) dict" where
  "unregister_loop [] reg = (Inr (), reg)"
| "unregister_loop (m # ms) reg =
     (if map_of reg m = None then
        (Inl (NotRegistered (''The model '' @ name m @ '' is not registered'')), reg)
      else unregister_loop ms (AList.delete m reg))"

definition unregister ::
  "model_or_iterable \<Rightarrow> 'a RestFulAdminSite \<Rightarrow> (error + unit) \<times> 'a RestFulAdminSite" where
  "unregister model_or_iter self =
     (let (res, reg) = unregister_loop (models_of model_or_iter) (registry self)
      in (res, self\<lparr>registry := reg\<rparr>))"

definition is_registered :: "'a RestFulAdminSite \<Rightarrow> model \<Rightarrow> bool" where
  "is_registered self m = (map_of (registry self) m \<noteq> None)"

section \<open>Example inputs\<close>

text \<open>
  A model \<^verbatim>\<open>Widget\<close> with one field \<^verbatim>\<open>name\<close>, and the handler that \<^verbatim>\<open>RestFulAdminMVS\<close> gives
  it when nothing is overridden: no handler-specific permission map, the six operations
  without annotation, the repository's permission class alone.
\<close>

definition widget_options :: options where
  "widget_options =
     \<lparr>app_label = ''shop'', model_name = ''widget'', verbose_name = ''widget'',
      verbose_name_plural = ''widgets'', abstract = False\<rparr>"

definition Widget :: model where
  "Widget = \<lparr>name = ''Widget'', meta = widget_options\<rparr>"

definition Gadget :: model where
  "Gadget =
     \<lparr>name = ''Gadget'',
      meta = \<lparr>app_label = ''shop'', model_name = ''gadget'', verbose_name = ''gadget'',
              verbose_name_plural = ''gadgets'', abstract = False\<rparr>\<rparr>"

definition BaseItem :: model where
  "BaseItem =
     \<lparr>name = ''BaseItem'',
      meta = \<lparr>app_label = ''shop'', model_name = ''baseitem'', verbose_name = ''base item'',
              verbose_name_plural = ''base items'', abstract = True\<rparr>\<rparr>"

definition widget_validate :: "(string, pyval) dict \<Rightarrow> string list + (string, pyval) dict" where
  "widget_validate payload =
     (case map_of payload ''name'' of
        Some (PyStr s) \<Rightarrow> Inr [(''name'', PyStr s)]
      | _ \<Rightarrow> Inl [''name: This field is required.''])"

definition widget_str :: "model_instance \<Rightarrow> string" where
  "widget_str obj = (case map_of (field_values obj) ''name'' of Some (PyStr s) \<Rightarrow> s | _ \<Rightarrow> ''Widget'')"

definition widget_serialize :: "model_instance \<Rightarrow> pyval" where
  "widget_serialize obj = PyDict ((''id'', PyInt (int (pk obj))) # field_values obj)"

definition widget_view :: view where
  "widget_view =
     \<lparr>model_options = widget_options,
      NOT_FOUND_PERMISSION_DEFAULT = False,
      permission_map = [],
      attributes = [(''list'', None), (''create'', None), (''retrieve'', None),
                    (''update'', None), (''partial_update'', None), (''destroy'', None)],
      action = None,
      permission_classes = [HasPermissionAccess],
      validate = widget_validate,
      serialize = widget_serialize,
      str_of = widget_str,
      content_type_pk = 12\<rparr>"

text \<open>The same handler with the not-found default configured to allowed.\<close>

definition open_widget_view :: view where
  "open_widget_view = widget_view\<lparr>NOT_FOUND_PERMISSION_DEFAULT := True\<rparr>"

text \<open>A caller who holds every permission of the \<^verbatim>\<open>Widget\<close> model, and one who holds none.\<close>

definition manager :: user where
  "manager =
     \<lparr>user_pk = 7,
      has_perm = (\<lambda>code. code \<in> {Some ''shop.view_widget'', Some ''shop.add_widget'',
                                 Some ''shop.change_widget'', Some ''shop.delete_widget''})\<rparr>"

definition visitor :: user where
  "visitor = \<lparr>user_pk = 8, has_perm = (\<lambda>code. False)\<rparr>"

definition request_of :: "string \<Rightarrow> user \<Rightarrow> (string, pyval) dict \<Rightarrow> request" where
  "request_of m u payload = \<lparr>http_method = m, user = u, data = payload\<rparr>"

text \<open>A store with two widgets and an empty audit log.\<close>

definition shop :: world where
  "shop =
     \<lparr>rows = [\<lparr>pk = 1, field_values = [(''name'', PyStr ''bolt'')]\<rparr>,
              \<lparr>pk = 2, field_values = [(''name'', PyStr ''nut'')]\<rparr>],
      next_pk = 3,
      log_entries = [],
      effects = []\<rparr>"

text \<open>Three snapshots of one widget, taken one after the other.\<close>

definition snapshot0 :: "(string, pyval) dict" where
  "snapshot0 = [(''name'', PyStr ''draft''), (''stock'', PyInt 5)]"

definition snapshot1 :: "(string, pyval) dict" where
  "snapshot1 = [(''name'', PyStr ''bolt''), (''stock'', PyInt 5)]"

definition snapshot2 :: "(string, pyval) dict" where
  "snapshot2 = [(''name'', PyStr ''nut''), (''stock'', PyInt 5)]"

text \<open>
  The handler of \<^verbatim>\<open>Widget\<close> as a create request and as a delete request reach it; the
  second one has a handler-specific map that files the delete permission under the
  operation's name.
\<close>

definition widget_create_view :: view where
  "widget_create_view = widget_view\<lparr>action := Some ''create''\<rparr>"

definition widget_destroy_view :: view where
  "widget_destroy_view =
     widget_view\<lparr>action := Some ''destroy'',
                 permission_map := [(''destroy'', PermCode ''shop.delete_widget'')]\<rparr>"

text \<open>
  Every registered model is a concrete one: \<^verbatim>\<open>register\<close> refuses abstract models before it
  stores anything, so the registries that \<^verbatim>\<open>register\<close> and \<^verbatim>\<open>unregister\<close> build from the
  empty one all have this property.
\<close>

definition registry_concrete :: "'a RestFulAdminSite \<Rightarrow> bool" where
  "registry_concrete self = (\<forall>m \<in> fst ` set (registry self). \<not> abstract (meta m))"

text \<open>The module's site before any registration, and after \<^verbatim>\<open>Widget\<close> was registered.\<close>

definition empty_site :: "pyval RestFulAdminSite" where
  "empty_site = RestFulAdminSite_init RestFulAdminMVS"

definition widget_site :: "pyval RestFulAdminSite" where
  "widget_site = snd (register (Model Widget) None [] empty_site)"

section \<open>Properties of the permission resolver\<close>

lemmas resolver_defs =
  has_perm_action_def effective_permission_map_def getattr_def get_permission_map_def
  dict_update_def make_permission_key_def get_permission_codename_def

lemmas example_defs =
  widget_view_def open_widget_view_def widget_options_def manager_def visitor_def request_of_def

text \<open>
  Claim C1 says that, with no handler-specific override and no annotation, the destroy
  operation is resolved through the map's delete permission, so that a caller holding the
  delete permission is authorized. The default map files that permission under the key
  \<^verbatim>\<open>delete\<close>, while the operation, and so the action the resolver looks up, is
  \<^verbatim>\<open>destroy\<close>: the lookup finds nothing and the not-found default answers. At the handler
  without overrides the caller \<^term>\<open>manager\<close>, who holds the delete permission of the model,
  is refused for destroy.
\<close>

theorem destroy_refused_with_delete_permission:
  "map_of (permission_map widget_view) ''destroy'' = None
   \<and> getattr widget_view ''destroy'' = Inr None
   \<and> has_perm manager (Some (make_permission_key widget_view ''delete''))
   \<and> map_of (get_permission_map widget_view) ''delete''
       = Some (PermCode (make_permission_key widget_view ''delete''))
   \<and> map_of (get_permission_map widget_view) ''destroy'' = None
   \<and> has_perm_action widget_view (Some ''destroy'') (request_of ''DELETE'' manager []) None
       = Inr False
   \<and> has_permission (request_of ''DELETE'' manager []) (widget_view\<lparr>action := Some ''destroy''\<rparr>)
       = Inr False"
  by (simp add: resolver_defs example_defs has_permission_def)

text \<open>
  Claim C3 says that an empty or unset action resolves to the configurable not-found
  default. It does not: with the default configured to allowed, an unset action is still
  refused.
\<close>

theorem unset_action_ignores_default:
  "NOT_FOUND_PERMISSION_DEFAULT open_widget_view
   \<and> http_method (request_of ''GET'' manager []) \<noteq> ''OPTIONS''
   \<and> has_perm_action open_widget_view None (request_of ''GET'' manager []) None
       \<noteq> Inr (NOT_FOUND_PERMISSION_DEFAULT open_widget_view)"
  by (simp add: resolver_defs example_defs)

text \<open>
  Claim C3, amended: for every request whose action is empty or unset and whose method is
  not \<^verbatim>\<open>OPTIONS\<close>, permission resolution returns denied, whatever the handler's not-found
  default is.
\<close>

theorem empty_action_denied:
  assumes "http_method request \<noteq> ''OPTIONS''" and "act = None \<or> act = Some []"
  shows "has_perm_action self act request obj = Inr False"
  using assms by (auto simp: has_perm_action_def)

text \<open>The amended claim C3 at a handler whose not-found default is allowed.\<close>

theorem empty_action_denied_witness:
  "http_method (request_of ''PATCH'' manager []) \<noteq> ''OPTIONS''
   \<and> NOT_FOUND_PERMISSION_DEFAULT open_widget_view
   \<and> has_perm_action open_widget_view (Some []) (request_of ''PATCH'' manager []) None = Inr False"
  using empty_action_denied [of "request_of ''PATCH'' manager []" "Some []" open_widget_view None]
  by (simp add: example_defs)

text \<open>
  Claim C5 says that every action absent from the effective permission map resolves to the
  configured not-found default, the metadata action and the introspection method apart.
  The empty action is in no permission map of the example handler, whose not-found default
  is allowed, and it is refused.
\<close>

theorem absent_empty_action_not_default:
  "map_of (get_permission_map open_widget_view) [] = None
   \<and> NOT_FOUND_PERMISSION_DEFAULT open_widget_view
   \<and> has_perm_action open_widget_view (Some []) (request_of ''GET'' manager []) None
       \<noteq> Inr (NOT_FOUND_PERMISSION_DEFAULT open_widget_view)"
  by (simp add: resolver_defs example_defs)

text \<open>
  Claim C5, amended: when the request method is \<^verbatim>\<open>OPTIONS\<close> or the action is the metadata
  action, resolution returns allowed, whatever the map and the default; otherwise, for every
  non-empty action whose effective permission map is built (the action names an attribute
  of the handler) and does not hold it, resolution returns the handler's not-found default.
\<close>

theorem absent_action_default:
  "(http_method request = ''OPTIONS'' \<or> act = Some ''metadata''
      \<longrightarrow> has_perm_action self act request obj = Inr True)
   \<and> (http_method request \<noteq> ''OPTIONS'' \<and> a \<noteq> [] \<and> a \<noteq> ''metadata''
        \<and> effective_permission_map self a = Inr perm_map \<and> map_of perm_map a = None
      \<longrightarrow> has_perm_action self (Some a) request obj = Inr (NOT_FOUND_PERMISSION_DEFAULT self))"
  by (simp add: has_perm_action_def)

text \<open>
  The amended claim C5 at concrete inputs: the metadata action for a caller without any
  permission, an \<^verbatim>\<open>OPTIONS\<close> request, and an operation named \<^verbatim>\<open>archive\<close> that the map of
  the handler does not hold, under both settings of the default.
\<close>

theorem absent_action_default_witness:
  "has_perm_action widget_view (Some ''metadata'') (request_of ''GET'' visitor []) None = Inr True
   \<and> has_perm_action widget_view (Some ''create'') (request_of ''OPTIONS'' visitor []) None
       = Inr True
   \<and> has_perm_action (widget_view\<lparr>attributes := [(''archive'', None)]\<rparr>) (Some ''archive'')
         (request_of ''POST'' manager []) None = Inr False
   \<and> has_perm_action (open_widget_view\<lparr>attributes := [(''archive'', None)]\<rparr>) (Some ''archive'')
         (request_of ''POST'' visitor []) None = Inr True"
proof -
  let ?v = "widget_view\<lparr>attributes := [(''archive'', None)]\<rparr>"
  let ?ov = "open_widget_view\<lparr>attributes := [(''archive'', None)]\<rparr>"
  have m: "effective_permission_map ?v ''archive'' = Inr (get_permission_map ?v)"
    by (simp add: effective_permission_map_def getattr_def)
  have om: "effective_permission_map ?ov ''archive'' = Inr (get_permission_map ?ov)"
    by (simp add: effective_permission_map_def getattr_def)
  have a: "map_of (get_permission_map ?v) ''archive'' = None"
    by (simp add: get_permission_map_def dict_update_def example_defs)
  have oa: "map_of (get_permission_map ?ov) ''archive'' = None"
    by (simp add: get_permission_map_def dict_update_def example_defs)
  show ?thesis
    using absent_action_default [where request = "request_of ''GET'' visitor []"
        and act = "Some ''metadata''" and self = widget_view and obj = None]
      absent_action_default [where request = "request_of ''OPTIONS'' visitor []"
        and act = "Some ''create''" and self = widget_view and obj = None]
      absent_action_default [where request = "request_of ''POST'' manager []"
        and a = "''archive''" and self = ?v and obj = None
        and perm_map = "get_permission_map ?v"]
      absent_action_default [where request = "request_of ''POST'' visitor []"
        and a = "''archive''" and self = ?ov and obj = None
        and perm_map = "get_permission_map ?ov"]
      m om a oa
    by (simp add: example_defs)
qed

section \<open>Properties of the diff helper\<close>

text \<open>Storing under a key that a dict does not hold appends the item.\<close>

lemma update_fresh_key: "k \<notin> fst ` set al \<Longrightarrow> AList.update k v al = al @ [(k, v)]"
  by (induction al) auto

lemma dict_update_distinct:
  "distinct (map fst (d @ other)) \<Longrightarrow> dict_update d other = d @ other"
proof (induction other arbitrary: d)
  case Nil
  then show ?case by (simp add: dict_update_def)
next
  case (Cons p other)
  obtain k v where p: "p = (k, v)" by (cases p)
  from Cons.prems p have fresh: "k \<notin> fst ` set d" by auto
  from Cons.prems p have "distinct (map fst ((d @ [(k, v)]) @ other))" by auto
  then have "dict_update (d @ [(k, v)]) other = (d @ [(k, v)]) @ other" by (rule Cons.IH)
  with fresh p show ?case by (simp add: dict_update_def update_fresh_key)
qed

lemma dict_of_pairs_distinct: "distinct (map fst pairs) \<Longrightarrow> dict_of_pairs pairs = pairs"
  using dict_update_distinct [of "[]" pairs] by (simp add: dict_of_pairs_def)

text \<open>The comprehension raises nothing when the second dict holds every key of the first.\<close>

lemma diff_items_total:
  "set (map fst d1) \<subseteq> set (map fst d2) \<Longrightarrow> \<exists>diffs. diff_items d1 d2 = Inr diffs"
proof (induction d1)
  case Nil
  then show ?case by simp
next
  case (Cons p d1)
  obtain k v where p: "p = (k, v)" by (cases p)
  from Cons.prems p have "k \<in> fst ` set d2" by auto
  then obtain v2 where v2: "map_of d2 k = Some v2"
    by (metis domD dom_map_of_conv_image_fst)
  from Cons obtain diffs where "diff_items d1 d2 = Inr diffs" by auto
  with p v2 show ?case by (simp add: getitem_def)
qed

text \<open>What the comprehension collects, when it raises nothing.\<close>

lemma diff_items_fields:
  "diff_items d1 d2 = Inr diffs \<Longrightarrow> distinct (map fst d1) \<Longrightarrow>
     distinct (map fst diffs) \<and> fst ` set diffs \<subseteq> fst ` set d1 \<and>
     (\<forall>k v1 v2. map_of diffs k = Some (v1, v2)
        \<longleftrightarrow> map_of d1 k = Some v1 \<and> map_of d2 k = Some v2 \<and> v1 \<noteq> v2)"
proof (induction d1 arbitrary: diffs)
  case Nil
  then show ?case by simp
next
  case (Cons p d1)
  obtain k v where p: "p = (k, v)" by (cases p)
  from Cons.prems(1) p obtain w rest where
    w: "map_of d2 k = Some w" and rest: "diff_items d1 d2 = Inr rest"
    and diffs: "diffs = (if v \<noteq> w then (k, (v, w)) # rest else rest)"
    by (auto simp: getitem_def split: option.splits sum.splits)
  from Cons.prems(2) p have fresh: "k \<notin> fst ` set d1" and dist: "distinct (map fst d1)"
    by auto
  from Cons.IH [OF rest dist] have
    ih1: "distinct (map fst rest)" and ih2: "fst ` set rest \<subseteq> fst ` set d1" and
    ih3: "\<And>k' v1 v2. map_of rest k' = Some (v1, v2)
        \<longleftrightarrow> map_of d1 k' = Some v1 \<and> map_of d2 k' = Some v2 \<and> v1 \<noteq> v2"
    by auto
  from fresh ih2 have nk: "k \<notin> fst ` set rest" by auto
  then have restk: "map_of rest k = None" by (simp add: map_of_eq_None_iff)
  show ?case
  proof (intro conjI allI)
    show "distinct (map fst diffs)" using diffs ih1 nk by auto
    show "fst ` set diffs \<subseteq> fst ` set (p # d1)" using diffs ih2 p by auto
    fix k' v1 v2
    show "map_of diffs k' = Some (v1, v2)
        \<longleftrightarrow> map_of (p # d1) k' = Some v1 \<and> map_of d2 k' = Some v2 \<and> v1 \<noteq> v2"
    proof (cases "k' = k")
      case True
      with diffs restk w p show ?thesis by auto
    next
      case False
      with diffs p ih3 [of k' v1 v2] show ?thesis by auto
    qed
  qed
qed

text \<open>After a second \<^verbatim>\<open>set_changed_model\<close> both snapshots of the helper are the newest one.\<close>

lemma set_changed_model_twice:
  "set_changed_model to_dict m2 (set_changed_model to_dict m1 self)
     = \<lparr>initial = to_dict m2, new_object = Some (to_dict m2)\<rparr>"
  by (simp add: set_changed_model_def Let_def)

text \<open>
  Claim C2 says that a second snapshot update makes the previous new snapshot the initial
  one, so that after the calls with \<^verbatim>\<open>s1\<close> then \<^verbatim>\<open>s2\<close> the diff is the comparison of \<^verbatim>\<open>s1\<close>
  against \<^verbatim>\<open>s2\<close>. The second call stores the incoming snapshot as the initial one: the
  helper then compares \<^verbatim>\<open>s2\<close> with itself. For the three snapshots of the example the
  comparison of the second against the third reports the changed name, and the helper
  reports nothing.
\<close>

theorem chained_diff_lost:
  "diff_items snapshot1 snapshot2 = Inr [(''name'', (PyStr ''bolt'', PyStr ''nut''))]
   \<and> initial (set_changed_model id snapshot2
        (set_changed_model id snapshot1 (ModelDiffHelper_init id snapshot0))) = snapshot2
   \<and> diff (set_changed_model id snapshot2
        (set_changed_model id snapshot1 (ModelDiffHelper_init id snapshot0))) = Inr []
   \<and> has_changed (set_changed_model id snapshot2
        (set_changed_model id snapshot1 (ModelDiffHelper_init id snapshot0))) = Inr False"
  by (simp add: set_changed_model_twice diff_def has_changed_def getitem_def dict_of_pairs_def
      dict_update_def snapshot1_def snapshot2_def)

text \<open>
  Claim C4 says that computing the diff never raises, also when the key sets of the two
  snapshots differ. A field of the initial snapshot that the updated snapshot lacks makes
  the lookup of its new value raise \<^verbatim>\<open>KeyError\<close>.
\<close>

theorem diff_raises_on_missing_field:
  "diff (set_changed_model id [(''name'', PyStr ''bolt'')]
      (ModelDiffHelper_init id [(''name'', PyStr ''bolt''), (''stock'', PyInt 5)]))
     = Inl (KeyError ''stock'')"
  by (simp add: set_changed_model_def ModelDiffHelper_init_def diff_def getitem_def)

text \<open>
  Claim C4, amended: for every pair of an initial and an updated snapshot such that the
  updated snapshot is empty or holds every field of the initial one, computing the diff
  raises nothing and yields exactly the fields that are present in both snapshots and have
  unequal values, each mapped to its pair of old and new value; the fields that only the
  updated snapshot holds never appear.
\<close>

theorem diff_of_covering_snapshot:
  assumes "distinct (map fst (to_dict old))"
    and "to_dict new = [] \<or> set (map fst (to_dict old)) \<subseteq> set (map fst (to_dict new))"
  shows "\<exists>d. diff (set_changed_model to_dict new (ModelDiffHelper_init to_dict old)) = Inr d
     \<and> distinct (map fst d)
     \<and> (\<forall>k v1 v2. map_of d k = Some (v1, v2)
          \<longleftrightarrow> map_of (to_dict old) k = Some v1 \<and> map_of (to_dict new) k = Some v2
              \<and> v1 \<noteq> v2)"
proof (cases "to_dict new = []")
  case True
  then show ?thesis
    by (simp add: set_changed_model_def ModelDiffHelper_init_def diff_def)
next
  case False
  with assms(2) have "set (map fst (to_dict old)) \<subseteq> set (map fst (to_dict new))" by simp
  then obtain diffs where diffs: "diff_items (to_dict old) (to_dict new) = Inr diffs"
    using diff_items_total by blast
  from diff_items_fields [OF diffs assms(1)] have
    dist: "distinct (map fst diffs)" and
    fields: "\<forall>k v1 v2. map_of diffs k = Some (v1, v2)
          \<longleftrightarrow> map_of (to_dict old) k = Some v1 \<and> map_of (to_dict new) k = Some v2
              \<and> v1 \<noteq> v2"
    by auto
  from False diffs dist have
    "diff (set_changed_model to_dict new (ModelDiffHelper_init to_dict old)) = Inr diffs"
    by (simp add: set_changed_model_def ModelDiffHelper_init_def diff_def
        dict_of_pairs_distinct)
  with dist fields show ?thesis by blast
qed

text \<open>
  The amended claim C4 at two snapshots with different key sets: the updated one holds a
  field more, one shared field changes and one stays.
\<close>

theorem diff_of_covering_snapshot_witness:
  "diff (set_changed_model id [(''name'', PyStr ''nut''), (''stock'', PyInt 5), (''sku'', PyInt 9)]
      (ModelDiffHelper_init id snapshot1))
     = Inr [(''name'', (PyStr ''bolt'', PyStr ''nut''))]
   \<and> (\<exists>d. diff (set_changed_model id
              [(''name'', PyStr ''nut''), (''stock'', PyInt 5), (''sku'', PyInt 9)]
              (ModelDiffHelper_init id snapshot1)) = Inr d
          \<and> distinct (map fst d)
          \<and> (\<forall>k v1 v2. map_of d k = Some (v1, v2)
               \<longleftrightarrow> map_of (id snapshot1) k = Some v1
                   \<and> map_of (id [(''name'', PyStr ''nut''), (''stock'', PyInt 5),
                                   (''sku'', PyInt 9)]) k = Some v2
                   \<and> v1 \<noteq> v2))"
proof -
  let ?new = "[(''name'', PyStr ''nut''), (''stock'', PyInt 5), (''sku'', PyInt 9)]"
  have keys: "distinct (map fst (id snapshot1))"
    by (simp add: snapshot1_def)
  have covered: "id ?new = [] \<or> set (map fst (id snapshot1)) \<subseteq> set (map fst (id ?new))"
    by (simp add: snapshot1_def)
  have val: "diff (set_changed_model id ?new (ModelDiffHelper_init id snapshot1))
      = Inr [(''name'', (PyStr ''bolt'', PyStr ''nut''))]"
    by (simp add: set_changed_model_def ModelDiffHelper_init_def diff_def getitem_def
        dict_of_pairs_def dict_update_def snapshot1_def)
  from val diff_of_covering_snapshot [of id snapshot1 ?new, OF keys covered]
  show ?thesis by (rule conjI)
qed

section \<open>Properties of the CRUD handler\<close>

lemmas store_defs =
  log_action_def log_deletion_def log_addition_def perform_destroy_def perform_create_def

text \<open>\<^verbatim>\<open>get_object\<close> returns a row of the store, the one with the key asked for.\<close>

lemma get_object_found:
  "get_object self request key w = Inr obj \<Longrightarrow> obj \<in> set (rows w) \<and> pk obj = key"
  by (auto simp: get_object_def find_Some_iff split: option.splits sum.splits)

text \<open>A destroy that does not get its record writes nothing.\<close>

lemma destroy_not_reached:
  "get_object self request key w = Inl e \<Longrightarrow> destroy self request key w = (Inl e, w)"
  by (simp add: destroy_def)

text \<open>
  Claim C6: in every destroy operation that reaches the execute phase (the record is
  fetched), the deletion audit entry, which carries the record's key and its display
  string, both read from the record that the store still holds, is written strictly
  before the delete: the writes of the operation are the log write followed by the delete,
  in this order, and nothing else.
\<close>

theorem destroy_logs_before_delete:
  assumes "get_object self request key w = Inr obj"
  shows "\<exists>e w'. destroy self request key w = (Inr (Response 204 PyNone), w')
     \<and> effects w' = effects w @ [Logged e, Deleted (pk obj)]
     \<and> log_entries w' = log_entries w @ [e]
     \<and> action_flag e = DELETION
     \<and> object_id e = pk obj
     \<and> object_repr e = PyList [PyDict [(''deleted'',
          PyDict [(''name'', PyStr (verbose_name (model_options self))),
                  (''object'', PyStr (str_of self obj))])]]
     \<and> obj \<in> set (rows w)
     \<and> rows w' = filter (\<lambda>r. pk r \<noteq> pk obj) (rows w)"
  using assms get_object_found [OF assms]
  by (simp add: destroy_def store_defs Let_def)

text \<open>Claim C6 at the store of the example: the manager deletes the widget with key 2.\<close>

theorem destroy_logs_before_delete_witness:
  "\<exists>e w'. destroy widget_destroy_view (request_of ''DELETE'' manager []) 2 shop
       = (Inr (Response 204 PyNone), w')
     \<and> effects w' = effects shop @ [Logged e, Deleted 2]
     \<and> log_entries w' = log_entries shop @ [e]
     \<and> action_flag e = DELETION
     \<and> object_id e = 2
     \<and> object_repr e = PyList [PyDict [(''deleted'',
          PyDict [(''name'', PyStr ''widget''), (''object'', PyStr ''nut'')])]]
     \<and> rows w' = [\<lparr>pk = 1, field_values = [(''name'', PyStr ''bolt'')]\<rparr>]"
proof -
  let ?obj = "\<lparr>pk = 2, field_values = [(''name'', PyStr ''nut'')]\<rparr>"
  have found: "get_object widget_destroy_view (request_of ''DELETE'' manager []) 2 shop = Inr ?obj"
    by (simp add: get_object_def has_object_permission_def resolver_defs example_defs
        widget_destroy_view_def shop_def)
  show ?thesis
    using destroy_logs_before_delete [OF found]
    by (simp add: widget_destroy_view_def example_defs widget_str_def shop_def)
qed

text \<open>
  Claim C7: a create request that a permission class refuses is answered with the denial
  response, and one whose payload fails validation with the client-error response; in both
  cases, and whenever the permission check does not pass, the store is left as it was: no
  record, no audit entry. When the request passes both, the record is saved first and the
  addition entry, which carries the key the record got, is written after it.
\<close>

theorem create_short_circuits:
  "(check_permissions (permission_classes self) request self = Inl PermissionDenied
      \<longrightarrow> dispatch self request (create self request) w = (Inr (Response 403 PyNone), w))
   \<and> (check_permissions (permission_classes self) request self = Inr ()
        \<and> validate self (data request) = Inl msgs
      \<longrightarrow> dispatch self request (create self request) w
            = (Inr (Response 400 (PyList (map PyStr msgs))), w))
   \<and> (check_permissions (permission_classes self) request self \<noteq> Inr ()
        \<or> validate self (data request) = Inl msgs
      \<longrightarrow> snd (dispatch self request (create self request) w) = w)
   \<and> (check_permissions (permission_classes self) request self = Inr ()
        \<and> validate self (data request) = Inr validated
      \<longrightarrow> (\<exists>obj e w'. dispatch self request (create self request) w
                = (Inr (Response 201 (serialize self obj)), w')
            \<and> effects w' = effects w @ [Saved obj, Logged e]
            \<and> rows w' = rows w @ [obj]
            \<and> log_entries w' = log_entries w @ [e]
            \<and> field_values obj = validated
            \<and> action_flag e = ADDITION
            \<and> object_id e = pk obj
            \<and> object_repr e = PyStr (str_of self obj)))"
proof (intro conjI impI)
  assume "check_permissions (permission_classes self) request self = Inl PermissionDenied"
  then show "dispatch self request (create self request) w = (Inr (Response 403 PyNone), w)"
    by (simp add: dispatch_def handle_exception_def)
next
  assume "check_permissions (permission_classes self) request self = Inr ()
        \<and> validate self (data request) = Inl msgs"
  then show "dispatch self request (create self request) w
            = (Inr (Response 400 (PyList (map PyStr msgs))), w)"
    by (simp add: dispatch_def create_def handle_exception_def)
next
  assume "check_permissions (permission_classes self) request self \<noteq> Inr ()
        \<or> validate self (data request) = Inl msgs"
  then show "snd (dispatch self request (create self request) w) = w"
    by (auto simp: dispatch_def create_def split: sum.splits)
next
  assume "check_permissions (permission_classes self) request self = Inr ()
        \<and> validate self (data request) = Inr validated"
  then show "\<exists>obj e w'. dispatch self request (create self request) w
                = (Inr (Response 201 (serialize self obj)), w')
            \<and> effects w' = effects w @ [Saved obj, Logged e]
            \<and> rows w' = rows w @ [obj]
            \<and> log_entries w' = log_entries w @ [e]
            \<and> field_values obj = validated
            \<and> action_flag e = ADDITION
            \<and> object_id e = pk obj
            \<and> object_repr e = PyStr (str_of self obj)"
    by (simp add: dispatch_def create_def store_defs Let_def)
qed

text \<open>
  Claim C7 at the store of the example: a caller without the add permission, a payload
  without a name, and a request that passes both checks.
\<close>

theorem create_short_circuits_witness:
  "dispatch widget_create_view (request_of ''POST'' visitor [(''name'', PyStr ''cog'')])
      (create widget_create_view (request_of ''POST'' visitor [(''name'', PyStr ''cog'')])) shop
     = (Inr (Response 403 PyNone), shop)
   \<and> dispatch widget_create_view (request_of ''POST'' manager [(''title'', PyStr ''cog'')])
      (create widget_create_view (request_of ''POST'' manager [(''title'', PyStr ''cog'')])) shop
     = (Inr (Response 400 (PyList [PyStr ''name: This field is required.''])), shop)
   \<and> (\<exists>obj e w'. dispatch widget_create_view (request_of ''POST'' manager [(''name'', PyStr ''cog'')])
          (create widget_create_view (request_of ''POST'' manager [(''name'', PyStr ''cog'')])) shop
         = (Inr (Response 201 (widget_serialize obj)), w')
       \<and> effects w' = effects shop @ [Saved obj, Logged e]
       \<and> rows w' = rows shop @ [obj]
       \<and> log_entries w' = log_entries shop @ [e]
       \<and> field_values obj = [(''name'', PyStr ''cog'')]
       \<and> action_flag e = ADDITION
       \<and> object_id e = pk obj
       \<and> object_repr e = PyStr (widget_str obj))"
proof -
  let ?v = widget_create_view
  let ?denied = "request_of ''POST'' visitor [(''name'', PyStr ''cog'')]"
  let ?invalid = "request_of ''POST'' manager [(''title'', PyStr ''cog'')]"
  let ?good = "request_of ''POST'' manager [(''name'', PyStr ''cog'')]"
  have refused: "check_permissions (permission_classes ?v) ?denied ?v = Inl PermissionDenied"
    by (simp add: has_permission_def resolver_defs example_defs widget_create_view_def)
  have passed1: "check_permissions (permission_classes ?v) ?invalid ?v = Inr ()"
    by (simp add: has_permission_def resolver_defs example_defs widget_create_view_def)
  have passed2: "check_permissions (permission_classes ?v) ?good ?v = Inr ()"
    by (simp add: has_permission_def resolver_defs example_defs widget_create_view_def)
  have invalid: "validate ?v (data ?invalid) = Inl [''name: This field is required.'']"
    by (simp add: widget_validate_def example_defs widget_create_view_def)
  have valid: "validate ?v (data ?good) = Inr [(''name'', PyStr ''cog'')]"
    by (simp add: widget_validate_def example_defs widget_create_view_def)
  have ser: "serialize ?v = widget_serialize" and str: "str_of ?v = widget_str"
    by (simp_all add: example_defs widget_create_view_def)
  show ?thesis
    using create_short_circuits [where self = ?v and request = ?denied and w = shop]
      create_short_circuits [where self = ?v and request = ?invalid and w = shop
        and msgs = "[''name: This field is required.'']"]
      create_short_circuits [where self = ?v and request = ?good and w = shop
        and validated = "[(''name'', PyStr ''cog'')]"]
      refused passed1 passed2 invalid valid ser str
    by simp
qed

section \<open>Properties of the registry\<close>

text \<open>The loop of \<^verbatim>\<open>register\<close> only adds: what is registered stays registered, unchanged.\<close>

lemma register_loop_keeps:
  "map_of reg k = Some v \<Longrightarrow> map_of (snd (register_loop ms vc opts reg)) k = Some v"
proof (induction ms arbitrary: vc opts reg)
  case Nil
  then show ?case by simp
next
  case (Cons m ms)
  show ?case
  proof (cases "abstract (meta m) \<or> map_of reg m \<noteq> None")
    case True
    with Cons.prems show ?thesis by auto
  next
    case False
    with Cons.prems have "k \<noteq> m" by auto
    with Cons.prems have "map_of (AList.update m c reg) k = Some v" for c
      by (simp add: update_conv')
    with False Cons.IH show ?thesis by (simp add: Let_def)
  qed
qed

text \<open>The registry stays concrete under both operations.\<close>

lemma register_loop_concrete:
  "\<forall>m \<in> fst ` set reg. \<not> abstract (meta m) \<Longrightarrow>
     \<forall>m \<in> fst ` set (snd (register_loop ms vc opts reg)). \<not> abstract (meta m)"
proof (induction ms arbitrary: vc opts reg)
  case Nil
  then show ?case by simp
next
  case (Cons m ms)
  show ?case
  proof (cases "abstract (meta m) \<or> map_of reg m \<noteq> None")
    case True
    with Cons.prems show ?thesis by auto
  next
    case False
    let ?opts1 = "AList.update ''__doc__'' (DocString (generate_docs m)) opts"
    let ?vc1 = "SynthesizedClass (name m @ ''Admin'') vc ?opts1"
    from False Cons.prems
    have "\<forall>m' \<in> fst ` set (AList.update m ?vc1 reg). \<not> abstract (meta m')"
      by (auto simp: dom_update)
    then have "\<forall>m' \<in> fst ` set (snd (register_loop ms ?vc1 ?opts1 (AList.update m ?vc1 reg))).
        \<not> abstract (meta m')"
      by (rule Cons.IH)
    with False show ?thesis by (simp add: Let_def)
  qed
qed

lemma unregister_loop_concrete:
  "\<forall>m \<in> fst ` set reg. \<not> abstract (meta m) \<Longrightarrow>
     \<forall>m \<in> fst ` set (snd (unregister_loop ms reg)). \<not> abstract (meta m)"
proof (induction ms arbitrary: reg)
  case Nil
  then show ?case by simp
next
  case (Cons m ms)
  from Cons.prems have "\<forall>m' \<in> fst ` set (AList.delete m reg). \<not> abstract (meta m')"
    by (auto simp: AList.delete_eq)
  then have "\<forall>m' \<in> fst ` set (snd (unregister_loop ms (AList.delete m reg))).
      \<not> abstract (meta m')"
    by (rule Cons.IH)
  with Cons.prems show ?case by simp
qed

lemma registry_concrete_init: "registry_concrete (RestFulAdminSite_init vc)"
  by (simp add: registry_concrete_def RestFulAdminSite_init_def)

lemma registry_concrete_register:
  assumes "registry_concrete self"
  shows "registry_concrete (snd (register mi view_cls opts self))"
proof -
  let ?vc = "case view_cls of None \<Rightarrow> default_view_class self | Some c \<Rightarrow> c"
  have r: "registry (snd (register mi view_cls opts self))
      = snd (register_loop (models_of mi) ?vc opts (registry self))"
    by (simp add: register_def Let_def case_prod_beta)
  from assms have "\<forall>m \<in> fst ` set (registry self). \<not> abstract (meta m)"
    unfolding registry_concrete_def .
  then have "\<forall>m \<in> fst ` set (snd (register_loop (models_of mi) ?vc opts (registry self))).
      \<not> abstract (meta m)"
    by (rule register_loop_concrete)
  then show ?thesis
    unfolding registry_concrete_def r .
qed

lemma registry_concrete_unregister:
  assumes "registry_concrete self"
  shows "registry_concrete (snd (unregister mi self))"
proof -
  have r: "registry (snd (unregister mi self))
      = snd (unregister_loop (models_of mi) (registry self))"
    by (simp add: unregister_def Let_def case_prod_beta)
  from assms have "\<forall>m \<in> fst ` set (registry self). \<not> abstract (meta m)"
    unfolding registry_concrete_def .
  then have "\<forall>m \<in> fst ` set (snd (unregister_loop (models_of mi) (registry self))).
      \<not> abstract (meta m)"
    by (rule unregister_loop_concrete)
  then show ?thesis
    unfolding registry_concrete_def r .
qed

text \<open>
  Claim C8: for every model, on a registry built by the two operations, \<^verbatim>\<open>register\<close> on an
  already registered model raises \<^verbatim>\<open>AlreadyRegistered\<close> and \<^verbatim>\<open>unregister\<close> on a model that
  is not registered raises \<^verbatim>\<open>NotRegistered\<close>, both leaving the registry as it was;
  registering a concrete, unregistered model succeeds; and after a successful \<^verbatim>\<open>register\<close>
  the model is registered, a following \<^verbatim>\<open>unregister\<close> succeeds, and after it the model is
  not registered.
\<close>

theorem register_unregister_errors:
  assumes "registry_concrete self"
  shows "(is_registered self m \<longrightarrow>
            register (Model m) view_cls opts self
              = (Inl (AlreadyRegistered (''The model '' @ name m @ '' is already registered'')),
                 self))
     \<and> (\<not> is_registered self m \<longrightarrow>
            unregister (Model m) self
              = (Inl (NotRegistered (''The model '' @ name m @ '' is not registered'')), self))
     \<and> (\<not> abstract (meta m) \<and> \<not> is_registered self m \<longrightarrow>
            fst (register (Model m) view_cls opts self) = Inr ())
     \<and> (\<forall>self1. register (Model m) view_cls opts self = (Inr (), self1) \<longrightarrow>
            is_registered self1 m
            \<and> (\<exists>self2. unregister (Model m) self1 = (Inr (), self2)
                  \<and> \<not> is_registered self2 m))"
proof (intro conjI impI allI)
  assume reg: "is_registered self m"
  then have "m \<in> fst ` set (registry self)"
    by (auto simp: is_registered_def map_of_eq_None_iff)
  with assms have "\<not> abstract (meta m)"
    unfolding registry_concrete_def by blast
  with reg show "register (Model m) view_cls opts self
      = (Inl (AlreadyRegistered (''The model '' @ name m @ '' is already registered'')), self)"
    by (simp add: register_def is_registered_def)
next
  assume "\<not> is_registered self m"
  then show "unregister (Model m) self
      = (Inl (NotRegistered (''The model '' @ name m @ '' is not registered'')), self)"
    by (simp add: unregister_def is_registered_def)
next
  assume "\<not> abstract (meta m) \<and> \<not> is_registered self m"
  then show "fst (register (Model m) view_cls opts self) = Inr ()"
    by (simp add: register_def is_registered_def Let_def)
next
  fix self1
  assume ok: "register (Model m) view_cls opts self = (Inr (), self1)"
  then have fresh: "\<not> abstract (meta m) \<and> map_of (registry self) m = None"
    by (auto simp: register_def Let_def split: if_splits)
  with ok obtain c where self1: "self1 = self\<lparr>registry := AList.update m c (registry self)\<rparr>"
    by (auto simp: register_def Let_def)
  then show "is_registered self1 m"
    by (simp add: is_registered_def update_conv')
  from self1 have "unregister (Model m) self1
      = (Inr (), self1\<lparr>registry := AList.delete m (registry self1)\<rparr>)"
    by (simp add: unregister_def update_conv')
  moreover have "\<not> is_registered (self1\<lparr>registry := AList.delete m (registry self1)\<rparr>) m"
    by (simp add: is_registered_def delete_conv')
  ultimately show "\<exists>self2. unregister (Model m) self1 = (Inr (), self2)
      \<and> \<not> is_registered self2 m"
    by blast
qed

text \<open>
  Claim C8 at the module's site: \<^verbatim>\<open>Widget\<close> is registered, registered again, and
  unregistered; \<^verbatim>\<open>Gadget\<close>, which was never registered, is unregistered.
\<close>

theorem register_unregister_errors_witness:
  "register (Model Widget) None [] widget_site
     = (Inl (AlreadyRegistered ''The model Widget is already registered''), widget_site)
   \<and> unregister (Model Gadget) widget_site
     = (Inl (NotRegistered ''The model Gadget is not registered''), widget_site)
   \<and> fst (register (Model Widget) None [] empty_site) = Inr ()
   \<and> is_registered widget_site Widget
   \<and> (\<exists>self2. unregister (Model Widget) widget_site = (Inr (), self2)
         \<and> \<not> is_registered self2 Widget)"
proof -
  have c0: "registry_concrete empty_site"
    unfolding empty_site_def by (rule registry_concrete_init)
  have c1: "registry_concrete widget_site"
    unfolding widget_site_def by (rule registry_concrete_register [OF c0])
  have concrete: "\<not> abstract (meta Widget)"
    by (simp add: Widget_def widget_options_def)
  have names: "name Widget = ''Widget''" "name Gadget = ''Gadget''"
    by (simp_all add: Widget_def Gadget_def)
  have other: "Gadget \<noteq> Widget"
    by (simp add: Widget_def Gadget_def)
  have empty: "registry empty_site = []"
    by (simp add: empty_site_def RestFulAdminSite_init_def)
  from empty have fresh: "\<not> is_registered empty_site Widget"
    by (simp add: is_registered_def)
  from concrete empty obtain c where reg: "registry widget_site = [(Widget, c)]"
    by (simp add: widget_site_def register_def Let_def)
  from concrete empty have ok: "register (Model Widget) None [] empty_site = (Inr (), widget_site)"
    by (simp add: widget_site_def register_def Let_def)
  from reg have w: "is_registered widget_site Widget"
    by (simp add: is_registered_def)
  from reg other have g: "\<not> is_registered widget_site Gadget"
    by (simp add: is_registered_def)
  from register_unregister_errors [OF c1, of Widget None "[]"] w names
  have again: "register (Model Widget) None [] widget_site
     = (Inl (AlreadyRegistered ''The model Widget is already registered''), widget_site)"
    by simp
  from register_unregister_errors [OF c1, of Gadget None "[]"] g names
  have never: "unregister (Model Gadget) widget_site
     = (Inl (NotRegistered ''The model Gadget is not registered''), widget_site)"
    by simp
  from register_unregister_errors [OF c0, of Widget None "[]"] concrete fresh
  have first: "fst (register (Model Widget) None [] empty_site) = Inr ()"
    by blast
  from register_unregister_errors [OF c0, of Widget None "[]"] ok
  have after: "is_registered widget_site Widget
     \<and> (\<exists>self2. unregister (Model Widget) widget_site = (Inr (), self2)
           \<and> \<not> is_registered self2 Widget)"
    by blast
  from again never first after show ?thesis by blast
qed

text \<open>
  The loop of \<^verbatim>\<open>register\<close> on a run of distinct, concrete, unregistered models followed
  by a model that is abstract or registered by then: it raises at that model, with the run
  registered and everything registered before still there.
\<close>

lemma register_loop_stops:
  "distinct ms \<Longrightarrow>
   \<forall>m \<in> set ms. \<not> abstract (meta m) \<and> map_of reg m = None \<Longrightarrow>
   abstract (meta bad) \<or> map_of reg bad \<noteq> None \<or> bad \<in> set ms \<Longrightarrow>
   \<exists>reg'. register_loop (ms @ bad # rest) vc opts reg =
       (Inl (if abstract (meta bad)
             then ImproperlyConfigured
               (''The model '' @ name bad @ '' is abstract, so it cannot be registered with admin.'')
             else AlreadyRegistered (''The model '' @ name bad @ '' is already registered'')),
        reg')
     \<and> (\<forall>m \<in> set ms. map_of reg' m \<noteq> None)
     \<and> (\<forall>k v. map_of reg k = Some v \<longrightarrow> map_of reg' k = Some v)"
proof (induction ms arbitrary: vc opts reg)
  case Nil
  then show ?case by auto
next
  case (Cons m ms)
  let ?opts1 = "AList.update ''__doc__'' (DocString (generate_docs m)) opts"
  let ?vc1 = "SynthesizedClass (name m @ ''Admin'') vc ?opts1"
  let ?reg1 = "AList.update m ?vc1 reg"
  from Cons.prems(2) have good: "\<not> abstract (meta m)" "map_of reg m = None"
    by auto
  then have step: "register_loop ((m # ms) @ bad # rest) vc opts reg
      = register_loop (ms @ bad # rest) ?vc1 ?opts1 ?reg1"
    by (simp add: Let_def)
  from Cons.prems(1) have dist: "distinct ms" and notin: "m \<notin> set ms"
    by auto
  from Cons.prems(2) notin
  have rest_good: "\<forall>m' \<in> set ms. \<not> abstract (meta m') \<and> map_of ?reg1 m' = None"
    by (auto simp: update_conv')
  from Cons.prems(3) have bad: "abstract (meta bad) \<or> map_of ?reg1 bad \<noteq> None \<or> bad \<in> set ms"
    by (auto simp: update_conv')
  from Cons.IH [OF dist rest_good bad, of ?vc1 ?opts1] obtain reg' where
    run: "register_loop (ms @ bad # rest) ?vc1 ?opts1 ?reg1 =
       (Inl (if abstract (meta bad)
             then ImproperlyConfigured
               (''The model '' @ name bad @ '' is abstract, so it cannot be registered with admin.'')
             else AlreadyRegistered (''The model '' @ name bad @ '' is already registered'')),
        reg')"
    and reg_ms: "\<forall>m' \<in> set ms. map_of reg' m' \<noteq> None"
    and kept: "\<forall>k v. map_of ?reg1 k = Some v \<longrightarrow> map_of reg' k = Some v"
    by blast
  from kept have m_in: "map_of reg' m \<noteq> None"
    by (simp add: update_conv')
  have "map_of reg' k = Some v" if "map_of reg k = Some v" for k v
  proof -
    from that good(2) have "k \<noteq> m" by auto
    with that have "map_of ?reg1 k = Some v" by (simp add: update_conv')
    with kept show ?thesis by blast
  qed
  with step run reg_ms m_in show ?case by auto
qed

text \<open>
  Claim C9: registration of an iterable is not atomic. When a run of distinct, concrete,
  unregistered models is followed in the sequence by a model that is abstract or already
  registered, \<^verbatim>\<open>register\<close> raises, and every model of the run is registered in the registry
  it leaves behind, which differs from the one before the call when the run is not empty.
\<close>

theorem register_not_atomic:
  assumes "distinct ms"
    and "\<forall>m \<in> set ms. \<not> abstract (meta m) \<and> \<not> is_registered self m"
    and "abstract (meta bad) \<or> is_registered self bad \<or> bad \<in> set ms"
  shows "\<exists>self'. register (Iterable (ms @ bad # rest)) view_cls opts self =
       (Inl (if abstract (meta bad)
             then ImproperlyConfigured
               (''The model '' @ name bad @ '' is abstract, so it cannot be registered with admin.'')
             else AlreadyRegistered (''The model '' @ name bad @ '' is already registered'')),
        self')
     \<and> (\<forall>m \<in> set ms. is_registered self' m)
     \<and> (\<forall>m. is_registered self m \<longrightarrow> is_registered self' m)
     \<and> (ms \<noteq> [] \<longrightarrow> registry self' \<noteq> registry self)"
proof -
  let ?vc = "case view_cls of None \<Rightarrow> default_view_class self | Some c \<Rightarrow> c"
  from assms(2) have good: "\<forall>m \<in> set ms. \<not> abstract (meta m) \<and> map_of (registry self) m = None"
    by (simp add: is_registered_def)
  from assms(3) have bad: "abstract (meta bad) \<or> map_of (registry self) bad \<noteq> None \<or> bad \<in> set ms"
    by (simp add: is_registered_def)
  from register_loop_stops [OF assms(1) good bad, of rest ?vc opts] obtain reg' where
    run: "register_loop (ms @ bad # rest) ?vc opts (registry self) =
       (Inl (if abstract (meta bad)
             then ImproperlyConfigured
               (''The model '' @ name bad @ '' is abstract, so it cannot be registered with admin.'')
             else AlreadyRegistered (''The model '' @ name bad @ '' is already registered'')),
        reg')"
    and reg_ms: "\<forall>m \<in> set ms. map_of reg' m \<noteq> None"
    and kept: "\<forall>k v. map_of (registry self) k = Some v \<longrightarrow> map_of reg' k = Some v"
    by blast
  have changed: "reg' \<noteq> registry self" if "ms \<noteq> []"
  proof -
    from that obtain m where m: "m \<in> set ms" by (cases ms) auto
    with good reg_ms have "map_of (registry self) m = None" "map_of reg' m \<noteq> None" by auto
    then show ?thesis by auto
  qed
  from kept have "is_registered (self\<lparr>registry := reg'\<rparr>) m" if "is_registered self m" for m
    using that by (auto simp: is_registered_def)
  with run reg_ms changed show ?thesis
    by (simp add: register_def is_registered_def)
qed

text \<open>
  Claim C9 at the module's site: \<^verbatim>\<open>Widget\<close> and \<^verbatim>\<open>Gadget\<close> are followed by an abstract
  model. The call raises and both are registered afterwards.
\<close>

theorem register_not_atomic_witness:
  "\<exists>self'. register (Iterable [Widget, Gadget, BaseItem]) None [] empty_site =
       (Inl (ImproperlyConfigured
          ''The model BaseItem is abstract, so it cannot be registered with admin.''), self')
     \<and> is_registered self' Widget \<and> is_registered self' Gadget
     \<and> registry self' \<noteq> registry empty_site"
proof -
  have d: "distinct [Widget, Gadget]"
    by (simp add: Widget_def Gadget_def)
  have empty: "registry empty_site = []"
    by (simp add: empty_site_def RestFulAdminSite_init_def)
  have concrete: "\<not> abstract (meta Widget)" "\<not> abstract (meta Gadget)"
    by (simp_all add: Widget_def Gadget_def widget_options_def)
  from concrete empty
  have good: "\<forall>m \<in> set [Widget, Gadget]. \<not> abstract (meta m) \<and> \<not> is_registered empty_site m"
    by (simp add: is_registered_def)
  have nm: "abstract (meta BaseItem)" "name BaseItem = ''BaseItem''"
    by (simp_all add: BaseItem_def)
  from nm(1) have bad: "abstract (meta BaseItem) \<or> is_registered empty_site BaseItem
      \<or> BaseItem \<in> set [Widget, Gadget]"
    by blast
  from register_not_atomic [OF d good bad, of "[]" None "[]"] obtain self' where
    run: "register (Iterable ([Widget, Gadget] @ [BaseItem])) None [] empty_site =
       (Inl (if abstract (meta BaseItem)
             then ImproperlyConfigured
               (''The model '' @ name BaseItem
                  @ '' is abstract, so it cannot be registered with admin.'')
             else AlreadyRegistered (''The model '' @ name BaseItem @ '' is already registered'')),
        self')"
    and regs: "\<forall>m \<in> set [Widget, Gadget]. is_registered self' m"
    and changed: "[Widget, Gadget] \<noteq> [] \<longrightarrow> registry self' \<noteq> registry empty_site"
    by blast
  from run nm have "register (Iterable [Widget, Gadget, BaseItem]) None [] empty_site =
       (Inl (ImproperlyConfigured
          ''The model BaseItem is abstract, so it cannot be registered with admin.''), self')"
    by simp
  moreover from regs have "is_registered self' Widget \<and> is_registered self' Gadget"
    by simp
  moreover from changed have "registry self' \<noteq> registry empty_site"
    by simp
  ultimately show ?thesis by blast
qed

text \<open>The loop of \<^verbatim>\<open>register\<close> on distinct, concrete, unregistered models raises nothing.\<close>

lemma register_loop_succeeds:
  "distinct ms \<Longrightarrow>
   \<forall>m \<in> set ms. \<not> abstract (meta m) \<and> map_of reg m = None \<Longrightarrow>
   fst (register_loop ms vc opts reg) = Inr ()"
proof (induction ms arbitrary: vc opts reg)
  case Nil
  then show ?case by simp
next
  case (Cons m ms)
  let ?opts1 = "AList.update ''__doc__'' (DocString (generate_docs m)) opts"
  let ?vc1 = "SynthesizedClass (name m @ ''Admin'') vc ?opts1"
  let ?reg1 = "AList.update m ?vc1 reg"
  from Cons.prems(2) have good: "\<not> abstract (meta m)" "map_of reg m = None"
    by auto
  from Cons.prems(1) have dist: "distinct ms" and notin: "m \<notin> set ms"
    by auto
  from Cons.prems(2) notin
  have "\<forall>m' \<in> set ms. \<not> abstract (meta m') \<and> map_of ?reg1 m' = None"
    by (auto simp: update_conv')
  with dist have "fst (register_loop ms ?vc1 ?opts1 ?reg1) = Inr ()"
    by (rule Cons.IH)
  with good show ?case by (simp add: Let_def)
qed

text \<open>The handler made for the first model of the loop: a subclass of the class handed in.\<close>

lemma register_loop_first:
  assumes "\<not> abstract (meta m)" and "map_of reg m = None"
  shows "map_of (snd (register_loop (m # ms) vc opts reg)) m
     = Some (SynthesizedClass (name m @ ''Admin'') vc
               (AList.update ''__doc__'' (DocString (generate_docs m)) opts))"
proof -
  let ?opts1 = "AList.update ''__doc__'' (DocString (generate_docs m)) opts"
  let ?vc1 = "SynthesizedClass (name m @ ''Admin'') vc ?opts1"
  let ?reg1 = "AList.update m ?vc1 reg"
  have "map_of ?reg1 m = Some ?vc1"
    by (simp add: update_conv')
  then have "map_of (snd (register_loop ms ?vc1 ?opts1 ?reg1)) m = Some ?vc1"
    by (rule register_loop_keeps)
  with assms show ?thesis by (simp add: Let_def)
qed

text \<open>
  The handlers made for two neighbours of the loop: the one of the second model is a
  subclass of the one of the first, and both namespaces are the caller's options with the
  documentation of the own model.
\<close>

lemma register_loop_chain:
  "distinct (pre @ a # b # post) \<Longrightarrow>
   \<forall>m \<in> set (pre @ a # b # post). \<not> abstract (meta m) \<and> map_of reg m = None \<Longrightarrow>
   \<exists>base.
     map_of (snd (register_loop (pre @ a # b # post) vc opts reg)) a
       = Some (SynthesizedClass (name a @ ''Admin'') base
                 (AList.update ''__doc__'' (DocString (generate_docs a)) opts))
     \<and> map_of (snd (register_loop (pre @ a # b # post) vc opts reg)) b
       = Some (SynthesizedClass (name b @ ''Admin'')
                 (SynthesizedClass (name a @ ''Admin'') base
                    (AList.update ''__doc__'' (DocString (generate_docs a)) opts))
                 (AList.update ''__doc__'' (DocString (generate_docs b)) opts))"
proof (induction pre arbitrary: vc opts reg)
  case Nil
  let ?opts1 = "AList.update ''__doc__'' (DocString (generate_docs a)) opts"
  let ?vc1 = "SynthesizedClass (name a @ ''Admin'') vc ?opts1"
  let ?reg1 = "AList.update a ?vc1 reg"
  from Nil.prems(2) have good_a: "\<not> abstract (meta a)" "map_of reg a = None"
    and good_b: "\<not> abstract (meta b)" "map_of reg b = None"
    by auto
  from Nil.prems(1) have ab: "b \<noteq> a" by auto
  from good_a have step: "register_loop ([] @ a # b # post) vc opts reg
      = register_loop (b # post) ?vc1 ?opts1 ?reg1"
    by (simp add: Let_def)
  from good_b ab have b1: "map_of ?reg1 b = None"
    by (simp add: update_conv')
  have "map_of ?reg1 a = Some ?vc1"
    by (simp add: update_conv')
  then have at_a: "map_of (snd (register_loop (b # post) ?vc1 ?opts1 ?reg1)) a = Some ?vc1"
    by (rule register_loop_keeps)
  have at_b: "map_of (snd (register_loop (b # post) ?vc1 ?opts1 ?reg1)) b
      = Some (SynthesizedClass (name b @ ''Admin'') ?vc1
                (AList.update ''__doc__'' (DocString (generate_docs b)) ?opts1))"
    using good_b(1) b1 by (rule register_loop_first)
  from step at_a at_b show ?case
    by (simp only: update_last) blast
next
  case (Cons m pre)
  let ?opts1 = "AList.update ''__doc__'' (DocString (generate_docs m)) opts"
  let ?vc1 = "SynthesizedClass (name m @ ''Admin'') vc ?opts1"
  let ?reg1 = "AList.update m ?vc1 reg"
  let ?ms = "pre @ a # b # post"
  from Cons.prems(2) have good: "\<not> abstract (meta m)" "map_of reg m = None"
    by auto
  then have step: "register_loop ((m # pre) @ a # b # post) vc opts reg
      = register_loop ?ms ?vc1 ?opts1 ?reg1"
    by (simp add: Let_def)
  from Cons.prems(1) have dist: "distinct ?ms" and notin: "m \<notin> set ?ms"
    by auto
  from Cons.prems(2) notin
  have rest_good: "\<forall>m' \<in> set ?ms. \<not> abstract (meta m') \<and> map_of ?reg1 m' = None"
    by (auto simp: update_conv')
  from Cons.IH [OF dist rest_good, of ?vc1 ?opts1] obtain base where
    "map_of (snd (register_loop ?ms ?vc1 ?opts1 ?reg1)) a
       = Some (SynthesizedClass (name a @ ''Admin'') base
                 (AList.update ''__doc__'' (DocString (generate_docs a)) ?opts1))"
    "map_of (snd (register_loop ?ms ?vc1 ?opts1 ?reg1)) b
       = Some (SynthesizedClass (name b @ ''Admin'')
                 (SynthesizedClass (name a @ ''Admin'') base
                    (AList.update ''__doc__'' (DocString (generate_docs a)) ?opts1))
                 (AList.update ''__doc__'' (DocString (generate_docs b)) ?opts1))"
    by blast
  with step show ?case
    by (simp only: update_last) blast
qed

text \<open>
  Claim C10: when \<^verbatim>\<open>register\<close> is called with several (distinct, concrete, unregistered)
  models, the handler of the first model is a subclass of the supplied handler class, or of
  the default one when none is supplied, and the handler of every later model is a subclass
  of the handler synthesized for the model before it, since the loop rebinds
  \<^verbatim>\<open>view_class\<close>. The namespace of each handler is the one options mapping of the call,
  with the documentation entry overwritten for its own model.
\<close>

theorem register_chains_handlers:
  assumes "distinct ms"
    and "\<forall>m \<in> set ms. \<not> abstract (meta m) \<and> \<not> is_registered self m"
  shows "\<exists>self'. register (Iterable ms) view_cls opts self = (Inr (), self')
     \<and> (\<forall>first others. ms = first # others \<longrightarrow>
           map_of (registry self') first
             = Some (SynthesizedClass (name first @ ''Admin'')
                       (case view_cls of None \<Rightarrow> default_view_class self | Some c \<Rightarrow> c)
                       (AList.update ''__doc__'' (DocString (generate_docs first)) opts)))
     \<and> (\<forall>pre a b post. ms = pre @ a # b # post \<longrightarrow>
           (\<exists>base.
              map_of (registry self') a
                = Some (SynthesizedClass (name a @ ''Admin'') base
                          (AList.update ''__doc__'' (DocString (generate_docs a)) opts))
              \<and> map_of (registry self') b
                = Some (SynthesizedClass (name b @ ''Admin'')
                          (SynthesizedClass (name a @ ''Admin'') base
                             (AList.update ''__doc__'' (DocString (generate_docs a)) opts))
                          (AList.update ''__doc__'' (DocString (generate_docs b)) opts))))"
proof -
  let ?vc = "case view_cls of None \<Rightarrow> default_view_class self | Some c \<Rightarrow> c"
  let ?run = "register_loop ms ?vc opts (registry self)"
  let ?self' = "self\<lparr>registry := snd ?run\<rparr>"
  from assms(2) have good: "\<forall>m \<in> set ms. \<not> abstract (meta m) \<and> map_of (registry self) m = None"
    by (simp add: is_registered_def)
  from assms(1) good have "fst ?run = Inr ()"
    by (rule register_loop_succeeds)
  then have ok: "register (Iterable ms) view_cls opts self = (Inr (), ?self')"
    by (simp add: register_def Let_def case_prod_beta)
  have first: "map_of (registry ?self') first
      = Some (SynthesizedClass (name first @ ''Admin'') ?vc
                (AList.update ''__doc__'' (DocString (generate_docs first)) opts))"
    if eq: "ms = first # others" for first others
  proof -
    from good eq have "\<not> abstract (meta first)" "map_of (registry self) first = None"
      by auto
    then have "map_of (snd (register_loop (first # others) ?vc opts (registry self))) first
        = Some (SynthesizedClass (name first @ ''Admin'') ?vc
                  (AList.update ''__doc__'' (DocString (generate_docs first)) opts))"
      by (rule register_loop_first)
    with eq show ?thesis by simp
  qed
  have chain: "\<exists>base.
      map_of (registry ?self') a
        = Some (SynthesizedClass (name a @ ''Admin'') base
                  (AList.update ''__doc__'' (DocString (generate_docs a)) opts))
      \<and> map_of (registry ?self') b
        = Some (SynthesizedClass (name b @ ''Admin'')
                  (SynthesizedClass (name a @ ''Admin'') base
                     (AList.update ''__doc__'' (DocString (generate_docs a)) opts))
                  (AList.update ''__doc__'' (DocString (generate_docs b)) opts))"
    if eq: "ms = pre @ a # b # post" for pre a b post
  proof -
    from assms(1) eq have d: "distinct (pre @ a # b # post)"
      by simp
    from good eq
    have g: "\<forall>m \<in> set (pre @ a # b # post).
        \<not> abstract (meta m) \<and> map_of (registry self) m = None"
      by simp
    from register_loop_chain [OF d g, of ?vc opts] eq show ?thesis
      by simp
  qed
  from ok first chain show ?thesis by blast
qed

text \<open>
  Claim C10 at the module's site: \<^verbatim>\<open>Widget\<close> and \<^verbatim>\<open>Gadget\<close> are registered in one call
  with one option. The handler of \<^verbatim>\<open>Gadget\<close> is a subclass of the handler of \<^verbatim>\<open>Widget\<close>,
  which is a subclass of the default class.
\<close>

theorem register_chains_handlers_witness:
  "\<exists>self'. register (Iterable [Widget, Gadget]) None [(''ordering'', OptionValue (PyStr ''name''))]
        empty_site = (Inr (), self')
     \<and> map_of (registry self') Widget
         = Some (SynthesizedClass ''WidgetAdmin'' RestFulAdminMVS
                   [(''ordering'', OptionValue (PyStr ''name'')),
                    (''__doc__'', DocString (generate_docs Widget))])
     \<and> map_of (registry self') Gadget
         = Some (SynthesizedClass ''GadgetAdmin''
                   (SynthesizedClass ''WidgetAdmin'' RestFulAdminMVS
                      [(''ordering'', OptionValue (PyStr ''name'')),
                       (''__doc__'', DocString (generate_docs Widget))])
                   [(''ordering'', OptionValue (PyStr ''name'')),
                    (''__doc__'', DocString (generate_docs Gadget))])"
proof -
  let ?opts = "[(''ordering'', OptionValue (PyStr ''name''))]"
  have d: "distinct [Widget, Gadget]"
    by (simp add: Widget_def Gadget_def)
  have empty: "registry empty_site = []" "default_view_class empty_site = RestFulAdminMVS"
    by (simp_all add: empty_site_def RestFulAdminSite_init_def)
  have concrete: "\<not> abstract (meta Widget)" "\<not> abstract (meta Gadget)"
    by (simp_all add: Widget_def Gadget_def widget_options_def)
  have names: "name Widget = ''Widget''" "name Gadget = ''Gadget''"
    by (simp_all add: Widget_def Gadget_def)
  from concrete empty
  have good: "\<forall>m \<in> set [Widget, Gadget]. \<not> abstract (meta m) \<and> \<not> is_registered empty_site m"
    by (simp add: is_registered_def)
  from register_chains_handlers [OF d good, of None ?opts] obtain self' where
    ok: "register (Iterable [Widget, Gadget]) None ?opts empty_site = (Inr (), self')"
    and first: "\<forall>first others. [Widget, Gadget] = first # others \<longrightarrow>
           map_of (registry self') first
             = Some (SynthesizedClass (name first @ ''Admin'')
                       (case None of None \<Rightarrow> default_view_class empty_site | Some c \<Rightarrow> c)
                       (AList.update ''__doc__'' (DocString (generate_docs first)) ?opts))"
    and chain: "\<forall>pre a b post. [Widget, Gadget] = pre @ a # b # post \<longrightarrow>
           (\<exists>base.
              map_of (registry self') a
                = Some (SynthesizedClass (name a @ ''Admin'') base
                          (AList.update ''__doc__'' (DocString (generate_docs a)) ?opts))
              \<and> map_of (registry self') b
                = Some (SynthesizedClass (name b @ ''Admin'')
                          (SynthesizedClass (name a @ ''Admin'') base
                             (AList.update ''__doc__'' (DocString (generate_docs a)) ?opts))
                          (AList.update ''__doc__'' (DocString (generate_docs b)) ?opts)))"
    by blast
  from first have w: "map_of (registry self') Widget
      = Some (SynthesizedClass ''WidgetAdmin'' RestFulAdminMVS
                [(''ordering'', OptionValue (PyStr ''name'')),
                 (''__doc__'', DocString (generate_docs Widget))])"
    by (simp add: names empty)
  have "[Widget, Gadget] = [] @ Widget # Gadget # []"
    by simp
  with chain obtain base where
    "map_of (registry self') Widget
       = Some (SynthesizedClass (name Widget @ ''Admin'') base
                 (AList.update ''__doc__'' (DocString (generate_docs Widget)) ?opts))"
    "map_of (registry self') Gadget
       = Some (SynthesizedClass (name Gadget @ ''Admin'')
                 (SynthesizedClass (name Widget @ ''Admin'') base
                    (AList.update ''__doc__'' (DocString (generate_docs Widget)) ?opts))
                 (AList.update ''__doc__'' (DocString (generate_docs Gadget)) ?opts))"
    by blast
  with w have "map_of (registry self') Gadget
      = Some (SynthesizedClass ''GadgetAdmin''
                (SynthesizedClass ''WidgetAdmin'' RestFulAdminMVS
                   [(''ordering'', OptionValue (PyStr ''name'')),
                    (''__doc__'', DocString (generate_docs Widget))])
                [(''ordering'', OptionValue (PyStr ''name'')),
                 (''__doc__'', DocString (generate_docs Gadget))])"
    by (simp add: names)
  with ok w show ?thesis by blast
qed

end
